theory Spec2Isabelle
  imports Main "HOL-Library.Sublist"
begin

section \<open>Go strings and the library functions the package calls\<close>

text \<open>
  A Go string is a sequence of bytes and \<^verbatim>\<open>len\<close> counts bytes; \<^typ>\<open>string\<close> is a list
  of 8-bit characters, so \<^const>\<open>length\<close> is \<^verbatim>\<open>len\<close>. The functions of this section are
  those of Go's package \<^verbatim>\<open>strings\<close> that \<^verbatim>\<open>pkg/commitrules/rules.go\<close> calls, and the
  decimal rendering that the verb \<^verbatim>\<open>%d\<close> of package \<^verbatim>\<open>fmt\<close> performs, written after their
  documented behaviour. The package \<^verbatim>\<open>regexp\<close> follows further down.
\<close>

subsection \<open>strings.Trim with an ASCII cutset\<close>

text \<open>
  \<^verbatim>\<open>strings.Trim(s, cutset)\<close> removes every leading and trailing code point that is in
  the cutset. The one cutset of the package is the pair of quote characters, both ASCII,
  for which Go trims byte by byte, the right end first.
\<close>

definition trimRightASCII :: "string \<Rightarrow> string \<Rightarrow> string" where
  "trimRightASCII s cutset = rev (dropWhile (\<lambda>c. c \<in> set cutset) (rev s))"

definition trimLeftASCII :: "string \<Rightarrow> string \<Rightarrow> string" where
  "trimLeftASCII s cutset = dropWhile (\<lambda>c. c \<in> set cutset) s"

definition Trim :: "string \<Rightarrow> string \<Rightarrow> string" where
  "Trim s cutset = trimLeftASCII (trimRightASCII s cutset) cutset"

text \<open>The cutset \<^verbatim>\<open>`"'`\<close> of the source: the double and the single quote.\<close>

definition quotes :: string where
  "quotes = [CHR 0x22, CHR 0x27]"

subsection \<open>strings.TrimSpace\<close>

text \<open>
  \<^verbatim>\<open>strings.TrimSpace\<close> removes leading and trailing white space as Unicode defines it
  (\<^verbatim>\<open>unicode.IsSpace\<close>), decoding the bytes as UTF-8. The white-space code points are
  U+0009 to U+000D, U+0020, U+0085, U+00A0, U+1680, U+2000 to U+200A, U+2028, U+2029,
  U+202F, U+205F and U+3000. UTF-8 has one encoding for each code point, and a byte that
  starts no valid encoding decodes to U+FFFD, which is no white space; so a string begins
  (ends) with a white-space code point exactly when it begins (ends) with one of the byte
  sequences below.
\<close>

definition white_space :: "string list" where
  "white_space =
    [[CHR 0x09], [CHR 0x0A], [CHR 0x0B], [CHR 0x0C], [CHR 0x0D], [CHR 0x20],
     [CHR 0xC2, CHR 0x85], [CHR 0xC2, CHR 0xA0],
     [CHR 0xE1, CHR 0x9A, CHR 0x80],
     [CHR 0xE2, CHR 0x80, CHR 0x80], [CHR 0xE2, CHR 0x80, CHR 0x81],
     [CHR 0xE2, CHR 0x80, CHR 0x82], [CHR 0xE2, CHR 0x80, CHR 0x83],
     [CHR 0xE2, CHR 0x80, CHR 0x84], [CHR 0xE2, CHR 0x80, CHR 0x85],
     [CHR 0xE2, CHR 0x80, CHR 0x86], [CHR 0xE2, CHR 0x80, CHR 0x87],
     [CHR 0xE2, CHR 0x80, CHR 0x88], [CHR 0xE2, CHR 0x80, CHR 0x89],
     [CHR 0xE2, CHR 0x80, CHR 0x8A],
     [CHR 0xE2, CHR 0x80, CHR 0xA8], [CHR 0xE2, CHR 0x80, CHR 0xA9],
     [CHR 0xE2, CHR 0x80, CHR 0xAF],
     [CHR 0xE2, CHR 0x81, CHR 0x9F],
     [CHR 0xE3, CHR 0x80, CHR 0x80]]"

text \<open>
  \<open>strip ws s\<close> removes from the front of \<open>s\<close>, as long as there is one, a non-empty
  member of \<open>ws\<close> that \<open>s\<close> begins with.
\<close>

function strip :: "string list \<Rightarrow> string \<Rightarrow> string" where
  "strip ws s =
    (case find (\<lambda>w. w \<noteq> [] \<and> prefix w s) ws of
       None \<Rightarrow> s
     | Some w \<Rightarrow> strip ws (drop (length w) s))"
  by pat_completeness auto
termination
proof (relation "measure (\<lambda>(ws, s). length s)")
  show "wf (measure (\<lambda>(ws, s). length s))" by simp
next
  fix ws :: "string list" and s w :: string
  assume "find (\<lambda>w. w \<noteq> [] \<and> prefix w s) ws = Some w"
  then have "w \<noteq> []" and "prefix w s"
    by (auto simp: find_Some_iff)
  then have "s \<noteq> []" by auto
  with \<open>w \<noteq> []\<close> show "((ws, drop (length w) s), (ws, s)) \<in> measure (\<lambda>(ws, s). length s)"
    by simp
qed

definition trimLeftSpace :: "string \<Rightarrow> string" where
  "trimLeftSpace s = strip white_space s"

definition trimRightSpace :: "string \<Rightarrow> string" where
  "trimRightSpace s = rev (strip (map rev white_space) (rev s))"

definition TrimSpace :: "string \<Rightarrow> string" where
  "TrimSpace s = trimRightSpace (trimLeftSpace s)"

subsection \<open>strings.Index, Count, Split, SplitN, Contains with a one-byte separator\<close>

text \<open>
  Every call of these functions in the package passes a separator of one byte
  (\<^verbatim>\<open>"\n"\<close>, \<^verbatim>\<open>":"\<close>, \<^verbatim>\<open>"("\<close>); the models take that byte. Go's \<^verbatim>\<open>Index\<close> returns -1
  when the separator does not occur, here \<open>None\<close>.
\<close>

fun Index :: "string \<Rightarrow> char \<Rightarrow> nat option" where
  "Index [] sep = None"
| "Index (c # cs) sep = (if c = sep then Some 0 else map_option Suc (Index cs sep))"

definition Contains :: "string \<Rightarrow> char \<Rightarrow> bool" where
  "Contains s sep \<longleftrightarrow> Index s sep \<noteq> None"

fun Count :: "string \<Rightarrow> char \<Rightarrow> nat" where
  "Count [] sep = 0"
| "Count (c # cs) sep = (if c = sep then Suc (Count cs sep) else Count cs sep)"

text \<open>
  Go's \<^verbatim>\<open>genSplit(s, sep, 0, n)\<close> for \<open>n \<ge> 0\<close>: at most \<open>n\<close> pieces, the last one the
  unsplit rest; no piece at all for \<open>n = 0\<close>. (Go also lowers \<open>n\<close> to \<open>len(s) + 1\<close>, which
  changes no result: a string has fewer separators than that.)
\<close>

fun genSplit :: "string \<Rightarrow> char \<Rightarrow> nat \<Rightarrow> string list" where
  "genSplit s sep 0 = []"
| "genSplit s sep (Suc k) =
    (if k = 0 then [s]
     else case Index s sep of
            None \<Rightarrow> [s]
          | Some m \<Rightarrow> take m s # genSplit (drop (m + 1) s) sep k)"

definition SplitN :: "string \<Rightarrow> char \<Rightarrow> nat \<Rightarrow> string list" where
  "SplitN s sep n = genSplit s sep n"

text \<open>\<^verbatim>\<open>Split(s, sep)\<close> is \<^verbatim>\<open>genSplit(s, sep, 0, -1)\<close>, which sets \<open>n\<close> to \<open>Count(s, sep) + 1\<close>.\<close>

definition Split :: "string \<Rightarrow> char \<Rightarrow> string list" where
  "Split s sep = genSplit s sep (Count s sep + 1)"

subsection \<open>strings.Join and the decimal rendering of the verb %d\<close>

fun Join :: "string list \<Rightarrow> string \<Rightarrow> string" where
  "Join [] sep = []"
| "Join [x] sep = x"
| "Join (x # y # zs) sep = x @ sep @ Join (y # zs) sep"

fun Itoa :: "nat \<Rightarrow> string" where
  "Itoa n =
    (if n < 10 then [''0123456789'' ! n]
     else Itoa (n div 10) @ [''0123456789'' ! (n mod 10)])"

declare Itoa.simps [simp del]

section \<open>The registry of commit types\<close>

record CommitRule =
  Type :: string
  Description :: string
  Examples :: "string list"

text \<open>The map literal \<^verbatim>\<open>CommitRules\<close>, entry by entry.\<close>

definition CommitRules_literal :: "(string \<times> CommitRule) list" where
  "CommitRules_literal =
    [(''feat'', \<lparr>Type = ''feat'', Description = ''A new feature'',
        Examples = [''feat(core): add user authentication service'',
                    ''feat(ui): implement dark mode toggle'']\<rparr>),
     (''fix'', \<lparr>Type = ''fix'', Description = ''A bug fix'',
        Examples = [''fix(api): resolve null pointer in validation'',
                    ''fix(ui): correct button alignment'']\<rparr>),
     (''docs'', \<lparr>Type = ''docs'', Description = ''Documentation only changes'',
        Examples = [''docs(readme): update installation instructions'',
                    ''docs(api): add endpoint documentation'']\<rparr>),
     (''style'', \<lparr>Type = ''style'',
        Description = ''Changes that do not affect the meaning of the code (white-space, formatting, missing semi-colons, etc)'',
        Examples = [''style(utils): format code with prettier'',
                    ''style(ui): fix indentation'']\<rparr>),
     (''refactor'', \<lparr>Type = ''refactor'',
        Description = ''A code change that neither fixes a bug nor adds a feature'',
        Examples = [''refactor(utils): extract validation logic'',
                    ''refactor(api): simplify request handling'']\<rparr>),
     (''test'', \<lparr>Type = ''test'',
        Description = ''Adding missing tests or correcting existing tests'',
        Examples = [''test(core): add unit tests for user service'',
                    ''test(api): fix integration tests'']\<rparr>),
     (''chore'', \<lparr>Type = ''chore'',
        Description = ''Other changes that don'' @ [CHR 0x27] @ ''t modify src or test files'',
        Examples = [''chore(deps): update dependencies'',
                    ''chore(build): update build configuration'']\<rparr>)]"

definition CommitRules :: "string \<rightharpoonup> CommitRule" where
  "CommitRules = map_of CommitRules_literal"

text \<open>
  A \<^verbatim>\<open>for k := range m\<close> loop over a Go map visits every key once, in an order the
  language leaves unspecified and the runtime varies from one loop to the next. The order
  a loop takes is an argument of the model: \<open>range_order m ks\<close> says that \<open>ks\<close> is an
  order in which a loop over the map \<open>m\<close> can visit its keys.
\<close>

definition range_order :: "('k \<rightharpoonup> 'v) \<Rightarrow> 'k list \<Rightarrow> bool" where
  "range_order m ks \<longleftrightarrow> distinct ks \<and> set ks = dom m"

text \<open>\<^verbatim>\<open>GetCommitTypes\<close> appends the keys to an empty slice as the loop visits them.\<close>

definition GetCommitTypes :: "string list \<Rightarrow> string list" where
  "GetCommitTypes ks = foldl (\<lambda>types commitType. types @ [commitType]) [] ks"

section \<open>GetPrompt\<close>

text \<open>
  The format string of \<^verbatim>\<open>fmt.Sprintf\<close> has two \<^verbatim>\<open>%s\<close> verbs and the call two string
  operands, which replace the verbs unchanged: the result is the text before the first
  verb, the type list, the text between the verbs and the analysis input.
\<close>

definition prompt_before_types :: string where
  "prompt_before_types =
    ''You are a commit message generator. Your ONLY task is to output a single conventional commit message.\<newline>'' @
    ''\<newline>'' @
    ''FORMAT: type(scope): description\<newline>'' @
    ''RULES:\<newline>'' @
    ''- Maximum 50 characters total\<newline>'' @
    ''- Types: ''"

definition prompt_after_types :: string where
  "prompt_after_types =
    ''\<newline>'' @
    ''- Extract scope from file paths (api, ui, core, scripts, pkg, etc.)\<newline>'' @
    ''- Use lowercase, present tense, imperative mood\<newline>'' @
    ''- No periods, quotes, or extra text\<newline>'' @
    ''\<newline>'' @
    ''EXAMPLE OUTPUTS:\<newline>'' @
    ''feat(core): add user authentication\<newline>'' @
    ''fix(api): resolve null pointer exception\<newline>'' @
    ''docs(readme): update installation guide\<newline>'' @
    ''style(ui): format button components\<newline>'' @
    ''refactor(db): simplify query logic\<newline>'' @
    ''test(auth): add unit tests for login\<newline>'' @
    ''chore(deps): update go modules\<newline>'' @
    ''\<newline>'' @
    ''CRITICAL: Respond with ONLY the commit message. No explanations, no quotes, no '' @
    [CHR 0x22] @ ''Here is the commit message:'' @ [CHR 0x22] @
    '', no extra text whatsoever.\<newline>'' @
    ''\<newline>'' @
    ''Git diff to analyze:\<newline>''"

definition GetPrompt :: "string list \<Rightarrow> string \<Rightarrow> string" where
  "GetPrompt ks analysisInput =
    (let commitTypesList = Join (GetCommitTypes ks) '', '';
         prompt = prompt_before_types @ commitTypesList @ prompt_after_types @ analysisInput
     in prompt)"

section \<open>ValidateCommitMessage\<close>

text \<open>
  The function returns an \<^verbatim>\<open>error\<close>, which is \<^verbatim>\<open>nil\<close> or carries the text that
  \<^verbatim>\<open>fmt.Errorf\<close> built, and it may print a warning on the standard output. The result
  of the model holds both: \<open>err\<close> is \<open>None\<close> for \<^verbatim>\<open>nil\<close>, and \<open>stdout\<close> is what the
  call printed. The first argument is the order in which \<^verbatim>\<open>GetCommitTypes\<close> visits the
  registry when the error text lists the types.
\<close>

record validation =
  err :: "string option"
  stdout :: string

definition ValidateCommitMessage :: "string list \<Rightarrow> string \<Rightarrow> validation" where
  "ValidateCommitMessage ks message0 =
    (let message = TrimSpace message0;
         parts = SplitN message (CHR '':'') 2
     in
       if length parts \<noteq> 2 then
         \<lparr>err = Some ''commit message must follow format: type(scope): description'',
          stdout = []\<rparr>
       else
         let typeAndScope = TrimSpace (parts ! 0);
             scopeParts = SplitN typeAndScope (CHR ''('') 2
         in
           if length scopeParts = 0 then
             \<lparr>err = Some ''commit message must have a type'', stdout = []\<rparr>
           else
             let commitType = scopeParts ! 0 in
               if CommitRules commitType = None then
                 \<lparr>err = Some (''invalid commit type: '' @ commitType @ ''. Valid types: '' @
                              Join (GetCommitTypes ks) '', ''),
                  stdout = []\<rparr>
               else if length message > 72 then
                 \<lparr>err = Some (''commit message is too long: '' @ Itoa (length message) @
                              '' characters (maximum: 72)''),
                  stdout = []\<rparr>
               else
                 \<lparr>err = None,
                  stdout =
                    (if length message > 50 then
                       ''Warning: Commit message is '' @ Itoa (length message) @
                       '' characters (recommended: <50)\<newline>''
                     else [])\<rparr>)"


section \<open>Regular expressions\<close>

subsection \<open>The width of the first code point (utf8.DecodeRuneInString)\<close>

text \<open>
  Go's \<^verbatim>\<open>regexp\<close> reads its input one UTF-8 code point at a time; a byte that starts
  no valid encoding counts as one code point (U+FFFD) of width one. \<open>rune_width s\<close> is
  the number of bytes the first code point of \<open>s\<close> takes.
\<close>

definition byte_in :: "string \<Rightarrow> nat \<Rightarrow> nat \<Rightarrow> nat \<Rightarrow> bool" where
  "byte_in s i lo hi \<longleftrightarrow> i < length s \<and> lo \<le> of_char (s ! i) \<and> of_char (s ! i) \<le> hi"

definition rune_width :: "string \<Rightarrow> nat" where
  "rune_width s =
    (case s of
       [] \<Rightarrow> 0
     | b # _ \<Rightarrow>
         let x = of_char b :: nat in
           if x < 0x80 then 1
           else if 0xC2 \<le> x \<and> x \<le> 0xDF then
             (if byte_in s 1 0x80 0xBF then 2 else 1)
           else if 0xE0 \<le> x \<and> x \<le> 0xEF then
             (if byte_in s 1 (if x = 0xE0 then 0xA0 else 0x80) (if x = 0xED then 0x9F else 0xBF)
                 \<and> byte_in s 2 0x80 0xBF
              then 3 else 1)
           else if 0xF0 \<le> x \<and> x \<le> 0xF4 then
             (if byte_in s 1 (if x = 0xF0 then 0x90 else 0x80) (if x = 0xF4 then 0x8F else 0xBF)
                 \<and> byte_in s 2 0x80 0xBF \<and> byte_in s 3 0x80 0xBF
              then 4 else 1)
           else 1)"

subsection \<open>Compiled patterns and leftmost-first matching\<close>

text \<open>
  The patterns of the package are sequences of single-code-point items, each taken once
  or under one of the greedy operators \<^verbatim>\<open>*\<close>, \<^verbatim>\<open>+\<close>, \<^verbatim>\<open>?\<close>, with one capturing group.
  An \<open>atom\<close> matches one code point: \<open>Lit c\<close> the ASCII character \<open>c\<close>, \<open>Space\<close> the
  class \<^verbatim>\<open>\s\<close> (tab, line feed, form feed, carriage return, space), \<open>Lower\<close> the class
  \<^verbatim>\<open>[a-z]\<close>, and \<open>Not c\<close> the class \<^verbatim>\<open>[^c]\<close> for an ASCII character \<open>c\<close>.
\<close>

datatype atom = Lit char | Space | Lower | Not char

fun step :: "atom \<Rightarrow> string \<Rightarrow> string option" where
  "step a [] = None"
| "step (Lit c) (x # xs) = (if x = c then Some xs else None)"
| "step Space (x # xs) =
    (if x \<in> {CHR 0x09, CHR 0x0A, CHR 0x0C, CHR 0x0D, CHR 0x20} then Some xs else None)"
| "step Lower (x # xs) =
    (if (97::nat) \<le> of_char x \<and> of_char x \<le> (122::nat) then Some xs else None)"
| "step (Not c) (x # xs) =
    (if x = c then None else Some (drop (rune_width (x # xs)) (x # xs)))"

lemma rune_width_pos: "s \<noteq> [] \<Longrightarrow> 0 < rune_width s"
  by (cases s) (simp_all add: rune_width_def Let_def)

lemma step_shorter: "step a s = Some s' \<Longrightarrow> length s' < length s"
proof (cases s)
  case Nil
  assume "step a s = Some s'"
  with Nil show ?thesis by simp
next
  case (Cons x xs)
  assume "step a s = Some s'"
  with Cons rune_width_pos [of "x # xs"] show ?thesis
    by (cases a) (auto split: if_splits)
qed

datatype node = One atom | Star atom | Plus atom | Opt atom | Open | Close

text \<open>
  Go's \<^verbatim>\<open>regexp\<close> returns the match a backtracking search finds first: every greedy
  operator takes as much as it can and gives back one code point at a time when the rest
  of the pattern fails. \<open>match ns s gs g\<close> matches the items \<open>ns\<close> at the front of \<open>s\<close>;
  \<open>gs\<close> is the input where the group opened and \<open>g\<close> the text the group captured. It
  returns the input left after the match and the captured text.
\<close>

function match :: "node list \<Rightarrow> string \<Rightarrow> string \<Rightarrow> string \<Rightarrow> (string \<times> string) option" where
  "match [] s gs g = Some (s, g)"
| "match (One a # ns) s gs g =
    (case step a s of None \<Rightarrow> None | Some s' \<Rightarrow> match ns s' gs g)"
| "match (Star a # ns) s gs g =
    (case step a s of
       None \<Rightarrow> match ns s gs g
     | Some s' \<Rightarrow>
         (case match (Star a # ns) s' gs g of
            Some r \<Rightarrow> Some r
          | None \<Rightarrow> match ns s gs g))"
| "match (Plus a # ns) s gs g =
    (case step a s of None \<Rightarrow> None | Some s' \<Rightarrow> match (Star a # ns) s' gs g)"
| "match (Opt a # ns) s gs g =
    (case step a s of
       None \<Rightarrow> match ns s gs g
     | Some s' \<Rightarrow>
         (case match ns s' gs g of
            Some r \<Rightarrow> Some r
          | None \<Rightarrow> match ns s gs g))"
| "match (Open # ns) s gs g = match ns s s g"
| "match (Close # ns) s gs g = match ns s gs (take (length gs - length s) gs)"
  by pat_completeness auto

termination
  by (relation "measures [\<lambda>(ns, s, gs, g). length s, \<lambda>(ns, s, gs, g). length ns]")
    (auto dest: step_shorter)

text \<open>
  A compiled pattern: its items, and whether it begins with \<^verbatim>\<open>^\<close> (the start of the
  text). \<^verbatim>\<open>FindStringSubmatch\<close> returns the leftmost match as the slice of the whole
  match and the group, or \<^verbatim>\<open>nil\<close> (here the empty list) when there is none. An
  unanchored search tries the start of the text first and moves on by one code point.
\<close>

record regexp =
  anchored :: bool
  prog :: "node list"

definition submatch :: "string \<Rightarrow> (string \<times> string) option \<Rightarrow> string list" where
  "submatch s r =
    (case r of
       None \<Rightarrow> []
     | Some (rest, g) \<Rightarrow> [take (length s - length rest) s, g])"

function search :: "node list \<Rightarrow> string \<Rightarrow> string list" where
  "search ns s =
    (case match ns s [] [] of
       Some r \<Rightarrow> submatch s (Some r)
     | None \<Rightarrow> if s = [] then [] else search ns (drop (rune_width s) s))"
  by pat_completeness auto
termination
  by (relation "measure (\<lambda>(ns, s). length s)") (auto intro!: diff_less rune_width_pos)

definition FindStringSubmatch :: "regexp \<Rightarrow> string \<Rightarrow> string list" where
  "FindStringSubmatch re s =
    (if anchored re then submatch s (match (prog re) s [] []) else search (prog re) s)"

definition lits :: "string \<Rightarrow> node list" where
  "lits s = map (\<lambda>c. One (Lit c)) s"

text \<open>
  The five patterns of \<^verbatim>\<open>CleanCommitMessage\<close>, compiled by hand, in the order of the source
  (\<^verbatim>\<open>regexp.MustCompile\<close> panics only on a pattern that does not compile, which none of
  these constants is):
  \<^verbatim>\<open>commit message:\s*"?([^"]+)"?\<close>, \<^verbatim>\<open>should be:\s*"?([^"]+)"?\<close>,
  \<^verbatim>\<open>message is:\s*"?([^"]+)"?\<close>, \<^verbatim>\<open>message:\s*"?([^"]+)"?\<close> and
  \<^verbatim>\<open>^\s*([a-z]+\([^)]+\):\s*[^.]+)\<close>.
\<close>

definition quoted_after :: "string \<Rightarrow> regexp" where
  "quoted_after phrase =
    \<lparr>anchored = False,
     prog = lits phrase @
       [Star Space, Opt (Lit (CHR 0x22)), Open, Plus (Not (CHR 0x22)), Close,
        Opt (Lit (CHR 0x22))]\<rparr>"

definition direct_match :: regexp where
  "direct_match =
    \<lparr>anchored = True,
     prog =
       [Star Space, Open, Plus Lower, One (Lit (CHR ''('')), Plus (Not (CHR '')'')),
        One (Lit (CHR '')'')), One (Lit (CHR '':'')), Star Space, Plus (Not (CHR ''.'')),
        Close]\<rparr>"

definition patterns :: "regexp list" where
  "patterns =
    [quoted_after ''commit message:'',
     quoted_after ''should be:'',
     quoted_after ''message is:'',
     quoted_after ''message:'',
     direct_match]"

text \<open>
  The text of a compiled pattern in the syntax of \<^verbatim>\<open>regexp\<close>, and the slice of pattern
  texts as the source has it (\<open>CHR 0x5C\<close> is the backslash, \<open>CHR 0x22\<close> the double
  quote); \<open>patterns_text\<close> below shows that the compiled patterns print as these texts.
\<close>

fun atom_text :: "atom \<Rightarrow> string" where
  "atom_text (Lit c) = (if c \<in> set ''()'' then [CHR 0x5C, c] else [c])"
| "atom_text Space = [CHR 0x5C, CHR ''s'']"
| "atom_text Lower = ''[a-z]''"
| "atom_text (Not c) = ''[^'' @ [c] @ '']''"

fun node_text :: "node \<Rightarrow> string" where
  "node_text (One a) = atom_text a"
| "node_text (Star a) = atom_text a @ ''*''"
| "node_text (Plus a) = atom_text a @ ''+''"
| "node_text (Opt a) = atom_text a @ ''?''"
| "node_text Open = ''(''"
| "node_text Close = '')''"

definition pattern_text :: "regexp \<Rightarrow> string" where
  "pattern_text re = (if anchored re then ''^'' else []) @ concat (map node_text (prog re))"

definition pattern_sources :: "string list" where
  "pattern_sources =
    [''commit message:'' @ [CHR 0x5C] @ ''s*'' @ [CHR 0x22] @ ''?([^'' @ [CHR 0x22] @ '']+)'' @ [CHR 0x22] @ ''?'',
     ''should be:'' @ [CHR 0x5C] @ ''s*'' @ [CHR 0x22] @ ''?([^'' @ [CHR 0x22] @ '']+)'' @ [CHR 0x22] @ ''?'',
     ''message is:'' @ [CHR 0x5C] @ ''s*'' @ [CHR 0x22] @ ''?([^'' @ [CHR 0x22] @ '']+)'' @ [CHR 0x22] @ ''?'',
     ''message:'' @ [CHR 0x5C] @ ''s*'' @ [CHR 0x22] @ ''?([^'' @ [CHR 0x22] @ '']+)'' @ [CHR 0x22] @ ''?'',
     ''^'' @ [CHR 0x5C] @ ''s*([a-z]+'' @ [CHR 0x5C] @ ''([^)]+'' @ [CHR 0x5C] @ ''):'' @ [CHR 0x5C] @ ''s*[^.]+)'']"

section \<open>CleanCommitMessage\<close>

text \<open>
  The loop over the patterns: \<open>Some r\<close> when an iteration returns \<open>r\<close>, \<open>None\<close> when the
  loop ends without returning.
\<close>

fun try_patterns :: "regexp list \<Rightarrow> string \<Rightarrow> string option" where
  "try_patterns [] firstLine = None"
| "try_patterns (re # res) firstLine =
    (let matches = FindStringSubmatch re firstLine in
       if length matches > 1 then
         let candidate = TrimSpace (matches ! 1) in
           if Contains candidate (CHR '':'') \<and> length candidate < 72 then
             Some (Trim candidate quotes)
           else try_patterns res firstLine
       else try_patterns res firstLine)"

text \<open>
  The check of the first \<^verbatim>\<open>if\<close>: the line contains a colon, and \<^verbatim>\<open>SplitN\<close> at the
  first colon gives two parts that are both non-empty once trimmed, and the line is
  shorter than 72 bytes.
\<close>

definition looks_proper :: "string \<Rightarrow> bool" where
  "looks_proper firstLine \<longleftrightarrow>
    Contains firstLine (CHR '':'') \<and>
    (let parts = SplitN firstLine (CHR '':'') 2 in
       length parts = 2 \<and>
       (let typePart = TrimSpace (parts ! 0);
            descPart = TrimSpace (parts ! 1)
        in length typePart > 0 \<and> length descPart > 0 \<and> length firstLine < 72))"

text \<open>
  Indexing a slice out of range panics in Go; \<^verbatim>\<open>lines[0]\<close> is not guarded in the
  source, so the model returns the panic as a value.
\<close>

datatype panic = IndexOutOfRange

definition CleanCommitMessage :: "string \<Rightarrow> panic + string" where
  "CleanCommitMessage message0 =
    (let message = Trim message0 quotes;
         message = TrimSpace message;
         lines = Split message (CHR 0x0A)
     in
       case lines of
         [] \<Rightarrow> Inl IndexOutOfRange
       | l0 # _ \<Rightarrow>
           let firstLine = TrimSpace l0 in
             if looks_proper firstLine then Inr firstLine
             else
               case try_patterns patterns firstLine of
                 Some r \<Rightarrow> Inr r
               | None \<Rightarrow>
                   if Contains firstLine (CHR '':'') \<and> length firstLine < 72 then Inr firstLine
                   else Inr firstLine)"

section \<open>Notions the claims are stated with\<close>

text \<open>
  The type token of a message as the code takes it (\<^verbatim>\<open>commitType\<close>): the text before
  the first \<^verbatim>\<open>(\<close> of the part that precedes the first colon of the trimmed message, that
  part trimmed of white space (all of it when it has no \<^verbatim>\<open>(\<close>).
\<close>

definition type_token :: "string \<Rightarrow> string" where
  "type_token message =
    takeWhile (\<lambda>c. c \<noteq> CHR ''('')
      (TrimSpace (takeWhile (\<lambda>c. c \<noteq> CHR '':'') (TrimSpace message)))"

text \<open>
  The type token in the words of the specification: the text before the first \<^verbatim>\<open>(\<close> of
  the part that precedes the first colon of the trimmed message, that part as it stands.
\<close>

definition pre_colon_token :: "string \<Rightarrow> string" where
  "pre_colon_token message =
    takeWhile (\<lambda>c. c \<noteq> CHR ''('') (takeWhile (\<lambda>c. c \<noteq> CHR '':'') (TrimSpace message))"

text \<open>
  The first line of a message, in the words of the specification: the input with the
  quotes and then the white space trimmed from its ends, cut before its first line feed,
  and trimmed of white space again.
\<close>

definition first_line :: "string \<Rightarrow> string" where
  "first_line message =
    TrimSpace (takeWhile (\<lambda>c. c \<noteq> CHR 0x0A) (TrimSpace (Trim message quotes)))"

text \<open>
  The bytes that occur in the encoding of some white-space code point, and the six ASCII
  white-space characters.
\<close>

definition space_bytes :: "char set" where
  "space_bytes = (\<Union>w\<in>set white_space. set w)"

definition ascii_space :: "char set" where
  "ascii_space = {CHR 0x09, CHR 0x0A, CHR 0x0B, CHR 0x0C, CHR 0x0D, CHR 0x20}"

text \<open>
  The number a string of decimal digits denotes.
\<close>

definition decimal_value :: "string \<Rightarrow> nat" where
  "decimal_value ds = foldl (\<lambda>n c. 10 * n + (of_char c - 48)) 0 ds"

section \<open>Inputs and iteration orders used in the examples\<close>

text \<open>
  Two orders in which a loop can visit the registry: that of the map literal, and the
  same order begun at its second key.
\<close>

definition literal_order :: "string list" where
  "literal_order = [''feat'', ''fix'', ''docs'', ''style'', ''refactor'', ''test'', ''chore'']"

definition rotated_order :: "string list" where
  "rotated_order = [''fix'', ''docs'', ''style'', ''refactor'', ''test'', ''chore'', ''feat'']"

text \<open>
  A message of 77 bytes and one of 67 bytes, both of a registered type.
\<close>

definition too_long_message :: string where
  "too_long_message =
    ''chore: aaaaaaaaaaaaaaaaaaaaaaaaaaaaaaaaaaaaaaaaaaaaaaaaaaaaaaaaaaaaaaaaaaaaaa''"

definition warned_message :: string where
  "warned_message = ''chore: aaaaaaaaaaaaaaaaaaaaaaaaaaaaaaaaaaaaaaaaaaaaaaaaaaaaaaaaaaaa''"

text \<open>
  A message of a registered type with a blank between the type and the colon.
\<close>

definition spaced_type_message :: string where
  "spaced_type_message = ''feat : add x''"

text \<open>
  The example of the specification, \<^verbatim>\<open>The commit message should be: "fix: resolve bug"\<close>,
  and the same line without its last quote.
\<close>

definition should_be_input :: string where
  "should_be_input = ''The commit message should be: '' @ [CHR 0x22] @ ''fix: resolve bug'' @ [CHR 0x22]"

definition should_be_line :: string where
  "should_be_line = ''The commit message should be: '' @ [CHR 0x22] @ ''fix: resolve bug''"

text \<open>
  A quoted message followed by a line of explanation, the message with only its closing
  quote, and the wrapped message of the package's own test.
\<close>

definition quoted_with_body :: string where
  "quoted_with_body = [CHR 0x22] @ ''feat: add x'' @ [CHR 0x22] @ ''\<newline>This adds x.''"

definition half_quoted :: string where
  "half_quoted = ''feat: add x'' @ [CHR 0x22]"

definition wrapped_long :: string where
  "wrapped_long = ''Based on the changes, the commit message should be: '' @ [CHR 0x22] @
     ''feat: add new feature'' @ [CHR 0x22]"

section \<open>Facts about the library functions\<close>

lemma Index_None_iff: "Index s c = None \<longleftrightarrow> c \<notin> set s"
  by (induction s) auto

lemma Index_Some_cut:
  "Index s c = Some m \<Longrightarrow>
     take m s = takeWhile (\<lambda>x. x \<noteq> c) s \<and> drop (m + 1) s = tl (dropWhile (\<lambda>x. x \<noteq> c) s)"
  by (induction s arbitrary: m) (auto split: if_splits)

lemma Contains_iff: "Contains s c \<longleftrightarrow> c \<in> set s"
  by (simp add: Contains_def Index_None_iff)

lemma SplitN_2:
  "SplitN s c 2 =
     (if c \<in> set s then [takeWhile (\<lambda>x. x \<noteq> c) s, tl (dropWhile (\<lambda>x. x \<noteq> c) s)] else [s])"
proof (cases "Index s c")
  case None
  then show ?thesis
    using Index_None_iff [of s c] by (simp add: SplitN_def numeral_2_eq_2)
next
  case (Some m)
  then have "c \<in> set s"
    using Index_None_iff [of s c] by simp
  with Some Index_Some_cut [OF Some] show ?thesis
    by (simp add: SplitN_def numeral_2_eq_2)
qed

lemma takeWhile_absent: "c \<notin> set s \<Longrightarrow> takeWhile (\<lambda>x. x \<noteq> c) s = s"
  by (induction s) auto


lemma hd_SplitN_2: "SplitN s c 2 ! 0 = takeWhile (\<lambda>x. x \<noteq> c) s"
  by (simp add: SplitN_2 takeWhile_absent)

lemma length_SplitN_2: "length (SplitN s c 2) = 2 \<longleftrightarrow> c \<in> set s"
  by (simp add: SplitN_2)

lemma SplitN_nonempty: "SplitN s c (Suc n) \<noteq> []"
  by (simp add: SplitN_def split: option.splits)

lemma Count_0_iff: "Count s c = 0 \<longleftrightarrow> c \<notin> set s"
  by (induction s) auto

lemma Split_cases:
  "Split s c = [s] \<and> c \<notin> set s
   \<or> (\<exists>rest. Split s c = takeWhile (\<lambda>x. x \<noteq> c) s # rest \<and> c \<in> set s)"
proof (cases "Count s c")
  case 0
  then show ?thesis
    using Count_0_iff [of s c] by (simp add: Split_def)
next
  case (Suc k)
  then have in_s: "c \<in> set s"
    using Count_0_iff [of s c] by auto
  then obtain m where m: "Index s c = Some m"
    using Index_None_iff [of s c] by auto
  with Suc in_s Index_Some_cut [OF m] show ?thesis
    by (simp add: Split_def)
qed

lemma Split_hd: "\<exists>rest. Split s c = takeWhile (\<lambda>x. x \<noteq> c) s # rest"
  using Split_cases [of s c] by (auto simp: takeWhile_absent)

lemma GetCommitTypes_eq: "GetCommitTypes ks = ks"
proof -
  have "foldl (\<lambda>types commitType. types @ [commitType]) acc ks = acc @ ks" for acc :: "string list"
    by (induction ks arbitrary: acc) simp_all
  then show ?thesis by (simp add: GetCommitTypes_def)
qed

lemma sublist_Join: "t \<in> set ts \<Longrightarrow> sublist t (Join ts sep)"
proof (induction ts sep rule: Join.induct)
  case (1 sep)
  then show ?case by simp
next
  case (2 x sep)
  then show ?case by simp
next
  case (3 x y zs sep)
  show ?case
  proof (cases "t = x")
    case True
    then show ?thesis by simp
  next
    case False
    with 3 have "sublist t (Join (y # zs) sep)" by simp
    then obtain ps ss where "Join (y # zs) sep = ps @ t @ ss"
      by (auto simp: sublist_def)
    then have "Join (x # y # zs) sep = (x @ sep @ ps) @ t @ ss"
      by simp
    then show ?thesis
      unfolding sublist_def by blast
  qed
qed

lemma sublist_in_context: "sublist t m \<Longrightarrow> sublist t (a @ m @ b)"
proof -
  assume "sublist t m"
  then obtain ps ss where "m = ps @ t @ ss"
    by (auto simp: sublist_def)
  then have "a @ m @ b = (a @ ps) @ t @ (ss @ b)"
    by simp
  then show ?thesis
    unfolding sublist_def by blast
qed




lemma digit_value: "n < 10 \<Longrightarrow> of_char (''0123456789'' ! n) = 48 + n"
proof -
  assume "n < 10"
  then have "n \<in> {0, 1, 2, 3, 4, 5, 6, 7, 8, 9}"
    by auto
  then show ?thesis
    by (elim insertE emptyE) simp_all
qed

lemma decimal_value_Itoa: "decimal_value (Itoa n) = n"
proof (induction n rule: Itoa.induct)
  case (1 n)
  show ?case
  proof (cases "n < 10")
    case True
    then show ?thesis
      by (simp add: Itoa.simps [of n] decimal_value_def digit_value)
  next
    case False
    with 1 have "decimal_value (Itoa (n div 10)) = n div 10"
      by simp
    moreover from False have "Itoa n = Itoa (n div 10) @ [''0123456789'' ! (n mod 10)]"
      by (simp add: Itoa.simps [of n])
    moreover have "of_char (''0123456789'' ! (n mod 10)) = 48 + n mod 10"
      by (rule digit_value) simp
    ultimately show ?thesis
      by (simp add: decimal_value_def)
  qed
qed

subsection \<open>Trimming\<close>

declare strip.simps [simp del]

lemma strip_found:
  "find (\<lambda>w. w \<noteq> [] \<and> prefix w s) ws = Some w \<Longrightarrow> strip ws s = strip ws (drop (length w) s)"
  by (simp add: strip.simps [of ws s])

lemma strip_not_found:
  "find (\<lambda>w. w \<noteq> [] \<and> prefix w s) ws = None \<Longrightarrow> strip ws s = s"
  by (simp add: strip.simps [of ws s])

lemma set_strip_subset: "set (strip ws s) \<subseteq> set s"
proof (induction ws s rule: strip.induct)
  case (1 ws s)
  show ?case
  proof (cases "find (\<lambda>w. w \<noteq> [] \<and> prefix w s) ws")
    case None
    then show ?thesis by (simp add: strip.simps [of ws s])
  next
    case (Some w)
    with 1 have "set (strip ws (drop (length w) s)) \<subseteq> set (drop (length w) s)"
      by simp
    also have "\<dots> \<subseteq> set s"
      by (rule set_drop_subset)
    finally show ?thesis
      using Some by (simp add: strip.simps [of ws s])
  qed
qed

lemma strip_keeps:
  "c \<in> set s \<Longrightarrow> \<forall>w\<in>set ws. c \<notin> set w \<Longrightarrow> c \<in> set (strip ws s)"
proof (induction ws s rule: strip.induct)
  case (1 ws s)
  show ?case
  proof (cases "find (\<lambda>w. w \<noteq> [] \<and> prefix w s) ws")
    case None
    with 1 show ?thesis by (simp add: strip.simps [of ws s])
  next
    case (Some w)
    then have w: "w \<in> set ws" "prefix w s"
      by (auto simp: find_Some_iff)
    then obtain r where r: "s = w @ r"
      by (auto simp: prefix_def)
    with w 1 have "c \<in> set (drop (length w) s)"
      by auto
    with 1 Some show ?thesis
      by (simp add: strip.simps [of ws s])
  qed
qed

lemma strip_stable: "find (\<lambda>w. w \<noteq> [] \<and> prefix w (strip ws s)) ws = None"
proof (induction ws s rule: strip.induct)
  case (1 ws s)
  show ?case
  proof (cases "find (\<lambda>w. w \<noteq> [] \<and> prefix w s) ws")
    case None
    then show ?thesis by (simp add: strip_not_found)
  next
    case (Some w)
    with 1 show ?thesis by (simp add: strip_found)
  qed
qed

lemma strip_idem: "strip ws (strip ws s) = strip ws s"
  by (rule strip_not_found) (rule strip_stable)

lemma strip_suffix: "suffix (strip ws s) s"
proof (induction ws s rule: strip.induct)
  case (1 ws s)
  show ?case
  proof (cases "find (\<lambda>w. w \<noteq> [] \<and> prefix w s) ws")
    case None
    then show ?thesis by (simp add: strip_not_found)
  next
    case (Some w)
    with 1 have "suffix (strip ws s) (drop (length w) s)"
      by (simp add: strip_found)
    moreover have "suffix (drop (length w) s) s"
      by (rule suffix_drop)
    ultimately show ?thesis
      by (rule suffix_order.trans)
  qed
qed

lemma strip_Nil_first:
  assumes "strip ws s = []" and "s \<noteq> []"
  shows "\<exists>w\<in>set ws. w \<noteq> [] \<and> prefix w s"
proof (cases "find (\<lambda>w. w \<noteq> [] \<and> prefix w s) ws")
  case None
  with assms show ?thesis by (simp add: strip_not_found)
next
  case (Some w)
  then show ?thesis by (auto simp: find_Some_iff)
qed

lemma strip_Nil_last:
  "strip ws s = [] \<Longrightarrow> s \<noteq> [] \<Longrightarrow> \<exists>w\<in>set ws. w \<noteq> [] \<and> suffix w s"
proof (induction ws s rule: strip.induct)
  case (1 ws s)
  show ?case
  proof (cases "find (\<lambda>w. w \<noteq> [] \<and> prefix w s) ws")
    case None
    with 1 show ?thesis by (simp add: strip_not_found)
  next
    case (Some w)
    then have w: "w \<in> set ws" "w \<noteq> []" "prefix w s"
      by (auto simp: find_Some_iff)
    then obtain r where r: "s = w @ r"
      by (auto simp: prefix_def)
    show ?thesis
    proof (cases "r = []")
      case True
      with r w show ?thesis by auto
    next
      case False
      from 1 Some r have "strip ws r = []"
        by (simp add: strip_found)
      with 1 Some r False obtain w' where "w' \<in> set ws" "w' \<noteq> []" "suffix w' r"
        by auto
      with r show ?thesis
        by (auto simp: suffix_def)
    qed
  qed
qed

lemma set_TrimSpace_subset: "set (TrimSpace s) \<subseteq> set s"
proof -
  have "set (TrimSpace s) \<subseteq> set (trimLeftSpace s)"
    using set_strip_subset [of "map rev white_space" "rev (trimLeftSpace s)"]
    by (simp add: TrimSpace_def trimRightSpace_def)
  also have "\<dots> \<subseteq> set s"
    by (simp add: trimLeftSpace_def set_strip_subset)
  finally show ?thesis .
qed

lemma TrimSpace_keeps:
  assumes "c \<in> set s" and "c \<notin> space_bytes"
  shows "c \<in> set (TrimSpace s)"
proof -
  from assms have "c \<in> set (trimLeftSpace s)"
    by (simp add: trimLeftSpace_def strip_keeps space_bytes_def)
  then have "c \<in> set (rev (trimLeftSpace s))"
    by simp
  moreover from assms have "\<forall>w\<in>set (map rev white_space). c \<notin> set w"
    by (simp add: space_bytes_def)
  ultimately have "c \<in> set (strip (map rev white_space) (rev (trimLeftSpace s)))"
    by (rule strip_keeps)
  then show ?thesis
    by (simp add: TrimSpace_def trimRightSpace_def)
qed

lemma colon_no_space: "CHR '':'' \<notin> space_bytes"
  by (simp add: space_bytes_def white_space_def)

lemma colon_TrimSpace_iff: "CHR '':'' \<in> set (TrimSpace s) \<longleftrightarrow> CHR '':'' \<in> set s"
  using set_TrimSpace_subset [of s] TrimSpace_keeps [OF _ colon_no_space, of s] by auto

lemma trimLeftSpace_stable:
  "w \<in> set white_space \<Longrightarrow> w \<noteq> [] \<Longrightarrow> \<not> prefix w (trimLeftSpace s)"
  using strip_stable [where s = s and ws = white_space]
  by (auto simp: trimLeftSpace_def find_None_iff)

lemma trimRightSpace_prefix: "prefix (trimRightSpace t) t"
proof -
  have "suffix (strip (map rev white_space) (rev t)) (rev t)"
    by (rule strip_suffix)
  then show ?thesis
    by (simp add: trimRightSpace_def suffix_to_prefix)
qed

lemma trimRightSpace_idem: "trimRightSpace (trimRightSpace t) = trimRightSpace t"
  by (simp add: trimRightSpace_def strip_idem)

lemma TrimSpace_no_space_prefix:
  assumes "w \<in> set white_space" and "w \<noteq> []"
  shows "\<not> prefix w (TrimSpace s)"
proof
  assume "prefix w (TrimSpace s)"
  then have "prefix w (trimLeftSpace s)"
    using trimRightSpace_prefix [of "trimLeftSpace s"]
    by (auto simp: TrimSpace_def)
  with assms show False
    by (simp add: trimLeftSpace_stable)
qed

lemma TrimSpace_idem: "TrimSpace (TrimSpace s) = TrimSpace s"
proof -
  have "find (\<lambda>w. w \<noteq> [] \<and> prefix w (TrimSpace s)) white_space = None"
    using TrimSpace_no_space_prefix [of _ s] by (auto simp: find_None_iff)
  then have "trimLeftSpace (TrimSpace s) = TrimSpace s"
    by (simp add: trimLeftSpace_def strip_not_found)
  then show ?thesis
    by (simp add: TrimSpace_def trimRightSpace_idem)
qed

lemma TrimSpace_Nil [simp]: "TrimSpace [] = []"
  by (simp add: TrimSpace_def trimLeftSpace_def trimRightSpace_def strip.simps [of _ "[]"]
      white_space_def)

lemma find_ascii_space:
  "c \<in> ascii_space \<Longrightarrow> find (\<lambda>w. w \<noteq> [] \<and> prefix w (c # cs)) white_space = Some [c]"
  unfolding ascii_space_def white_space_def by (elim insertE emptyE) simp_all

lemma trimLeftSpace_blank: "set s \<subseteq> ascii_space \<Longrightarrow> trimLeftSpace s = []"
proof (induction s)
  case Nil
  then show ?case
    by (simp add: trimLeftSpace_def strip.simps [of _ "[]"] white_space_def)
next
  case (Cons c cs)
  then have "find (\<lambda>w. w \<noteq> [] \<and> prefix w (c # cs)) white_space = Some [c]"
    by (simp add: find_ascii_space)
  then have "strip white_space (c # cs) = strip white_space cs"
    using strip_found [of "c # cs" white_space "[c]"] by simp
  with Cons show ?case
    by (simp add: trimLeftSpace_def)
qed

lemma TrimSpace_blank: "set s \<subseteq> ascii_space \<Longrightarrow> TrimSpace s = []"
  using TrimSpace_Nil by (simp add: TrimSpace_def trimLeftSpace_blank)

lemma quotes_no_space: "c \<in> set quotes \<Longrightarrow> c \<notin> space_bytes"
  by (auto simp: quotes_def space_bytes_def white_space_def)

lemma TrimSpace_empty_ends:
  assumes "TrimSpace s = []" and "s \<noteq> []"
  shows "hd s \<in> space_bytes \<and> last s \<in> space_bytes"
proof -
  have left: "trimLeftSpace s = []"
  proof (rule ccontr)
    assume ne: "trimLeftSpace s \<noteq> []"
    from assms(1) have "strip (map rev white_space) (rev (trimLeftSpace s)) = []"
      by (simp add: TrimSpace_def trimRightSpace_def)
    with ne obtain w' where w': "w' \<in> set (map rev white_space)" "w' \<noteq> []"
      "suffix w' (rev (trimLeftSpace s))"
      using strip_Nil_last [of "map rev white_space" "rev (trimLeftSpace s)"] by auto
    then obtain v' where v': "v' \<in> set white_space" "w' = rev v'"
      by auto
    with w' have "v' \<noteq> []" "prefix v' (trimLeftSpace s)"
      by (simp_all add: suffix_to_prefix)
    with v' show False
      by (simp add: trimLeftSpace_stable)
  qed
  then have s0: "strip white_space s = []"
    by (simp add: trimLeftSpace_def)
  from strip_Nil_first [OF s0 assms(2)] obtain w where
    w: "w \<in> set white_space" "w \<noteq> []" "prefix w s"
    by auto
  then have "hd s \<in> set w"
    by (auto simp: prefix_def)
  with w(1) have "hd s \<in> space_bytes"
    unfolding space_bytes_def by (rule UN_I)
  from strip_Nil_last [OF s0 assms(2)] obtain v where
    v: "v \<in> set white_space" "v \<noteq> []" "suffix v s"
    by auto
  then have "last s \<in> set v"
    by (auto simp: suffix_def)
  with v(1) have "last s \<in> space_bytes"
    unfolding space_bytes_def by (rule UN_I)
  with \<open>hd s \<in> space_bytes\<close> show ?thesis by simp
qed

lemma Trim_id:
  assumes "s \<noteq> [] \<Longrightarrow> hd s \<notin> set cutset \<and> last s \<notin> set cutset"
  shows "Trim s cutset = s"
proof (cases "s = []")
  case True
  then show ?thesis by (simp add: Trim_def trimLeftASCII_def trimRightASCII_def)
next
  case False
  with assms have e: "hd s \<notin> set cutset" "last s \<notin> set cutset"
    by auto
  from False e(2) have "dropWhile (\<lambda>c. c \<in> set cutset) (rev s) = rev s"
    by (cases s rule: rev_cases) auto
  then have "trimRightASCII s cutset = s"
    by (simp add: trimRightASCII_def)
  moreover from False e(1) have "dropWhile (\<lambda>c. c \<in> set cutset) s = s"
    by (cases s) auto
  ultimately show ?thesis
    by (simp add: Trim_def trimLeftASCII_def)
qed

lemma Trim_white_space:
  assumes "TrimSpace s = []"
  shows "Trim s quotes = s"
proof (rule Trim_id)
  assume "s \<noteq> []"
  with assms have "hd s \<in> space_bytes \<and> last s \<in> space_bytes"
    by (rule TrimSpace_empty_ends)
  then show "hd s \<notin> set quotes \<and> last s \<notin> set quotes"
    using quotes_no_space by blast
qed

lemma set_Trim_subset: "set (Trim s cutset) \<subseteq> set s"
proof -
  have "set (Trim s cutset) \<subseteq> set (trimRightASCII s cutset)"
    by (simp add: Trim_def trimLeftASCII_def set_dropWhileD subsetI)
  also have "\<dots> \<subseteq> set s"
    using set_dropWhileD [of _ "\<lambda>c. c \<in> set cutset" "rev s"]
    by (auto simp: trimRightASCII_def)
  finally show ?thesis .
qed

subsection \<open>Matching\<close>

lemma set_step_subset: "step a s = Some s' \<Longrightarrow> set s' \<subseteq> set s"
proof (cases s)
  case Nil
  assume "step a s = Some s'"
  with Nil show ?thesis by simp
next
  case (Cons x xs)
  assume "step a s = Some s'"
  with Cons set_drop_subset [of "rune_width (x # xs)" "x # xs"] show ?thesis
    by (cases a) (auto split: if_splits)
qed

declare match.simps [simp del]

lemma set_match_group:
  "match ns s gs g = Some (rest, g') \<Longrightarrow> set g' \<subseteq> set g \<union> set gs \<union> set s"
proof (induction ns s gs g rule: match.induct)
  case (1 s gs g)
  then show ?case by (auto simp: match.simps(1))
next
  case (2 a ns s gs g)
  from "2.prems" obtain s' where s': "step a s = Some s'" "match ns s' gs g = Some (rest, g')"
    by (auto simp: match.simps(2) [of a ns s] split: option.splits)
  with "2.IH" have "set g' \<subseteq> set g \<union> set gs \<union> set s'"
    by simp
  with set_step_subset [OF s'(1)] show ?case by blast
next
  case (3 a ns s gs g)
  show ?case
  proof (cases "step a s")
    case None
    with "3.prems" have "match ns s gs g = Some (rest, g')"
      by (simp add: match.simps(3) [of a ns s])
    with None "3.IH"(1) show ?thesis by simp
  next
    case (Some s')
    show ?thesis
    proof (cases "match (Star a # ns) s' gs g")
      case None
      with Some "3.prems" have "match ns s gs g = Some (rest, g')"
        by (simp add: match.simps(3) [of a ns s])
      with None Some "3.IH"(3) show ?thesis by simp
    next
      case inner: (Some r)
      with Some "3.prems" have "match (Star a # ns) s' gs g = Some (rest, g')"
        by (simp add: match.simps(3) [of a ns s])
      with Some "3.IH"(2) have "set g' \<subseteq> set g \<union> set gs \<union> set s'"
        by simp
      with set_step_subset [OF Some] show ?thesis by blast
    qed
  qed
next
  case (4 a ns s gs g)
  from "4.prems" obtain s' where
    s': "step a s = Some s'" "match (Star a # ns) s' gs g = Some (rest, g')"
    by (auto simp: match.simps(4) [of a ns s] split: option.splits)
  with "4.IH" have "set g' \<subseteq> set g \<union> set gs \<union> set s'"
    by simp
  with set_step_subset [OF s'(1)] show ?case by blast
next
  case (5 a ns s gs g)
  show ?case
  proof (cases "step a s")
    case None
    with "5.prems" have "match ns s gs g = Some (rest, g')"
      by (simp add: match.simps(5) [of a ns s])
    with None "5.IH"(1) show ?thesis by simp
  next
    case (Some s')
    show ?thesis
    proof (cases "match ns s' gs g")
      case None
      with Some "5.prems" have "match ns s gs g = Some (rest, g')"
        by (simp add: match.simps(5) [of a ns s])
      with None Some "5.IH"(3) show ?thesis by simp
    next
      case inner: (Some r)
      with Some "5.prems" have "match ns s' gs g = Some (rest, g')"
        by (simp add: match.simps(5) [of a ns s])
      with Some "5.IH"(2) have "set g' \<subseteq> set g \<union> set gs \<union> set s'"
        by simp
      with set_step_subset [OF Some] show ?thesis by blast
    qed
  qed
next
  case (6 ns s gs g)
  then show ?case by (auto simp: match.simps(6) [of ns s])
next
  case (7 ns s gs g)
  then have "set g' \<subseteq> set (take (length gs - length s) gs) \<union> set gs \<union> set s"
    by (simp add: match.simps(7) [of ns s])
  then show ?case
    using set_take_subset [of "length gs - length s" gs] by auto
qed

lemma set_submatch: "x \<in> set (submatch s (match ns s [] [])) \<Longrightarrow> set x \<subseteq> set s"
proof (cases "match ns s [] []")
  case None
  assume "x \<in> set (submatch s (match ns s [] []))"
  with None show ?thesis by (simp add: submatch_def)
next
  case (Some r)
  assume x: "x \<in> set (submatch s (match ns s [] []))"
  obtain rest g where r: "r = (rest, g)"
    by (cases r)
  with Some have "set g \<subseteq> set s"
    using set_match_group [of ns s "[]" "[]" rest g] by simp
  with x Some r show ?thesis
    using set_take_subset [of "length s - length rest" s] by (auto simp: submatch_def)
qed

declare search.simps [simp del]

lemma set_search: "x \<in> set (search ns s) \<Longrightarrow> set x \<subseteq> set s"
proof (induction ns s rule: search.induct)
  case (1 ns s)
  show ?case
  proof (cases "match ns s [] []")
    case None
    with 1 show ?thesis
      using set_drop_subset [of "rune_width s" s]
      by (auto simp: search.simps [of ns s] split: if_splits)
  next
    case (Some r)
    with 1 have "x \<in> set (submatch s (match ns s [] []))"
      by (simp add: search.simps [of ns s])
    then show ?thesis
      by (rule set_submatch)
  qed
qed

lemma set_FindStringSubmatch:
  "x \<in> set (FindStringSubmatch re s) \<Longrightarrow> set x \<subseteq> set s"
  by (auto simp: FindStringSubmatch_def dest: set_search set_submatch split: if_splits)

section \<open>Facts about the functions of the package\<close>

lemma dom_CommitRules:
  "dom CommitRules = {''feat'', ''fix'', ''docs'', ''style'', ''refactor'', ''test'', ''chore''}"
  by (auto simp: CommitRules_def CommitRules_literal_def dom_map_of_conv_image_fst)

lemma range_order_literal: "range_order CommitRules literal_order"
  by (simp add: range_order_def dom_CommitRules literal_order_def)

lemma range_order_rotated: "range_order CommitRules rotated_order"
  by (auto simp: range_order_def dom_CommitRules rotated_order_def)




lemma GetPrompt_unfold:
  "GetPrompt ks x = prompt_before_types @ Join ks '', '' @ prompt_after_types @ x"
  by (simp add: GetPrompt_def GetCommitTypes_eq)

lemma Validate_unfold:
  "ValidateCommitMessage ks m =
    (if CHR '':'' \<notin> set (TrimSpace m) then
       \<lparr>err = Some ''commit message must follow format: type(scope): description'', stdout = []\<rparr>
     else if CommitRules (type_token m) = None then
       \<lparr>err = Some (''invalid commit type: '' @ type_token m @ ''. Valid types: '' @ Join ks '', ''),
        stdout = []\<rparr>
     else if 72 < length (TrimSpace m) then
       \<lparr>err = Some (''commit message is too long: '' @ Itoa (length (TrimSpace m)) @
                    '' characters (maximum: 72)''),
        stdout = []\<rparr>
     else
       \<lparr>err = None,
        stdout =
          (if 50 < length (TrimSpace m) then
             ''Warning: Commit message is '' @ Itoa (length (TrimSpace m)) @
             '' characters (recommended: <50)\<newline>''
           else [])\<rparr>)"
  unfolding ValidateCommitMessage_def Let_def hd_SplitN_2 length_SplitN_2 type_token_def
    GetCommitTypes_eq
  using SplitN_nonempty [of _ _ 1] by (simp add: numeral_2_eq_2)

lemma patterns_text: "map pattern_text patterns = pattern_sources"
  by (simp add: patterns_def pattern_sources_def pattern_text_def quoted_after_def
      direct_match_def lits_def)

lemma looks_proper_iff:
  "looks_proper f \<longleftrightarrow>
     CHR '':'' \<in> set f
     \<and> TrimSpace (takeWhile (\<lambda>c. c \<noteq> CHR '':'') f) \<noteq> []
     \<and> TrimSpace (tl (dropWhile (\<lambda>c. c \<noteq> CHR '':'') f)) \<noteq> []
     \<and> length f < 72"
  by (auto simp: looks_proper_def Contains_iff SplitN_2 Let_def)

lemma Clean_unfold:
  "CleanCommitMessage message =
     Inr (if looks_proper (first_line message) then first_line message
          else case try_patterns patterns (first_line message) of
                 Some r \<Rightarrow> r
               | None \<Rightarrow> first_line message)"
proof -
  obtain rest where "Split (TrimSpace (Trim message quotes)) (CHR 0x0A) =
      takeWhile (\<lambda>x. x \<noteq> CHR 0x0A) (TrimSpace (Trim message quotes)) # rest"
    using Split_hd by blast
  then show ?thesis
    by (simp add: CleanCommitMessage_def first_line_def Let_def split: option.splits)
qed

lemma set_try_patterns: "try_patterns res f = Some r \<Longrightarrow> set r \<subseteq> set f"
proof (induction res)
  case Nil
  then show ?case by simp
next
  case (Cons re res)
  show ?case
  proof (cases "1 < length (FindStringSubmatch re f)
      \<and> Contains (TrimSpace (FindStringSubmatch re f ! 1)) (CHR '':'')
      \<and> length (TrimSpace (FindStringSubmatch re f ! 1)) < 72")
    case True
    with Cons.prems have r: "r = Trim (TrimSpace (FindStringSubmatch re f ! 1)) quotes"
      by (simp add: Let_def)
    from True have "FindStringSubmatch re f ! 1 \<in> set (FindStringSubmatch re f)"
      by simp
    then have "set (FindStringSubmatch re f ! 1) \<subseteq> set f"
      by (rule set_FindStringSubmatch)
    with r show ?thesis
      using set_Trim_subset set_TrimSpace_subset by blast
  next
    case False
    with Cons.prems have "try_patterns res f = Some r"
      by (auto simp: Let_def split: if_splits)
    then show ?thesis
      by (rule Cons.IH)
  qed
qed

lemma try_patterns_no_colon: "CHR '':'' \<notin> set f \<Longrightarrow> try_patterns res f = None"
proof (induction res)
  case Nil
  then show ?case by simp
next
  case (Cons re res)
  have "\<not> Contains (TrimSpace (FindStringSubmatch re f ! 1)) (CHR '':'')"
    if "1 < length (FindStringSubmatch re f)"
  proof -
    from that have "FindStringSubmatch re f ! 1 \<in> set (FindStringSubmatch re f)"
      by simp
    then have "set (FindStringSubmatch re f ! 1) \<subseteq> set f"
      by (rule set_FindStringSubmatch)
    with Cons.prems show ?thesis
      using set_TrimSpace_subset by (fastforce simp: Contains_iff)
  qed
  with Cons show ?case
    by (simp add: Let_def)
qed

lemma newline_first_line: "CHR 0x0A \<notin> set (first_line s)"
proof -
  have "set (first_line s) \<subseteq> set (takeWhile (\<lambda>c. c \<noteq> CHR 0x0A) (TrimSpace (Trim s quotes)))"
    by (simp add: first_line_def set_TrimSpace_subset)
  then show ?thesis
    by (auto dest: set_takeWhileD)
qed

lemma first_line_fixed:
  assumes "Trim r quotes = r" and "TrimSpace r = r" and "CHR 0x0A \<notin> set r"
  shows "first_line r = r"
  using assms by (simp add: first_line_def takeWhile_absent)

lemma Clean_result:
  assumes "CleanCommitMessage s = Inr r"
  shows "r = first_line s \<or> try_patterns patterns (first_line s) = Some r"
  using assms by (auto simp: Clean_unfold split: if_splits option.splits)

lemma Clean_no_newline:
  assumes "CleanCommitMessage s = Inr r"
  shows "CHR 0x0A \<notin> set r"
  using Clean_result [OF assms] newline_first_line [of s] set_try_patterns [of patterns "first_line s" r]
  by auto

section \<open>Evaluations at concrete inputs\<close>

lemma TrimSpace_feat_add_x: "TrimSpace ''feat: add x'' = ''feat: add x''"
  by code_simp

lemma TrimSpace_add_new_feature: "TrimSpace ''add new feature'' = ''add new feature''"
  by code_simp

lemma TrimSpace_bogus: "TrimSpace ''bogus: add x'' = ''bogus: add x''"
  by code_simp

lemma type_token_feat_add_x: "type_token ''feat: add x'' = ''feat''"
  by code_simp

lemma type_token_bogus: "type_token ''bogus: add x'' = ''bogus''"
  by code_simp

lemma length_too_long_message: "length too_long_message = 77"
  by (simp add: too_long_message_def)

lemma TrimSpace_too_long_message: "TrimSpace too_long_message = too_long_message"
  unfolding too_long_message_def by code_simp

lemma type_token_too_long_message: "type_token too_long_message = ''chore''"
  unfolding too_long_message_def by code_simp

lemma colon_too_long_message: "CHR '':'' \<in> set too_long_message"
  by (simp add: too_long_message_def)

lemma length_warned_message: "length warned_message = 67"
  by (simp add: warned_message_def)

lemma TrimSpace_warned_message: "TrimSpace warned_message = warned_message"
  unfolding warned_message_def by code_simp

lemma type_token_warned_message: "type_token warned_message = ''chore''"
  unfolding warned_message_def by code_simp

lemma colon_warned_message: "CHR '':'' \<in> set warned_message"
  by (simp add: warned_message_def)

lemma Itoa_77: "Itoa 77 = ''77''"
  by code_simp

lemma Itoa_67: "Itoa 67 = ''67''"
  by code_simp

lemma CommitRules_feat: "CommitRules ''feat'' \<noteq> None"
  by (simp add: CommitRules_def CommitRules_literal_def)

lemma CommitRules_chore: "CommitRules ''chore'' \<noteq> None"
  by (simp add: CommitRules_def CommitRules_literal_def)

lemma CommitRules_bogus: "CommitRules ''bogus'' = None"
  by (simp add: CommitRules_def CommitRules_literal_def)

lemma TrimSpace_spaced_type_message: "TrimSpace spaced_type_message = spaced_type_message"
  unfolding spaced_type_message_def by code_simp

lemma type_token_spaced_type_message: "type_token spaced_type_message = ''feat''"
  unfolding spaced_type_message_def by code_simp

lemma pre_colon_token_spaced_type_message: "pre_colon_token spaced_type_message = ''feat ''"
  by (simp add: pre_colon_token_def TrimSpace_spaced_type_message) (simp add: spaced_type_message_def)

lemma CommitRules_feat_blank: "CommitRules ''feat '' = None"
  by (simp add: CommitRules_def CommitRules_literal_def)

lemma Validate_spaced_type_message:
  "ValidateCommitMessage literal_order spaced_type_message = \<lparr>err = None, stdout = []\<rparr>"
  by (simp add: Validate_unfold TrimSpace_spaced_type_message type_token_spaced_type_message
      CommitRules_feat)
    (simp add: spaced_type_message_def)

lemma Clean_should_be_input: "CleanCommitMessage should_be_input = Inr should_be_line"
  unfolding should_be_input_def should_be_line_def by code_simp

lemma looks_proper_should_be_line: "looks_proper should_be_line"
  unfolding should_be_line_def by code_simp

lemma try_patterns_should_be_line: "try_patterns patterns should_be_line = Some ''fix: resolve bug''"
  unfolding should_be_line_def by code_simp

lemma Clean_wrapped_long: "CleanCommitMessage wrapped_long = Inr ''feat: add new feature''"
  unfolding wrapped_long_def by code_simp

lemma Clean_quoted_with_body: "CleanCommitMessage quoted_with_body = Inr half_quoted"
  unfolding quoted_with_body_def half_quoted_def by code_simp

lemma Clean_half_quoted: "CleanCommitMessage half_quoted = Inr ''feat: add x''"
  unfolding half_quoted_def by code_simp

lemma Clean_feat_add_x_body: "CleanCommitMessage ''feat: add x\<newline>extra body text'' = Inr ''feat: add x''"
  by code_simp

lemma first_line_feat_add_x_body: "first_line ''feat: add x\<newline>extra body text'' = ''feat: add x''"
  by code_simp

lemma Trim_feat_add_x: "Trim ''feat: add x'' quotes = ''feat: add x''"
  by code_simp

lemma Trim_feat_add_new_feature: "Trim ''feat: add new feature'' quotes = ''feat: add new feature''"
  by code_simp

lemma TrimSpace_feat_add_new_feature: "TrimSpace ''feat: add new feature'' = ''feat: add new feature''"
  by code_simp

lemma looks_proper_feat_add_new_feature: "looks_proper ''feat: add new feature''"
  by code_simp

lemma looks_proper_feat_add_x: "looks_proper ''feat: add x''"
  by code_simp

lemma Clean_spaces: "CleanCommitMessage ''   '' = Inr []"
  by code_simp

lemma Clean_empty: "CleanCommitMessage [] = Inr []"
  by code_simp

lemma TrimSpace_spaces: "TrimSpace ''   '' = []"
  by code_simp

lemma first_line_add_new_feature: "first_line ''add new feature'' = ''add new feature''"
  by code_simp

section \<open>GetPrompt: the claims\<close>

text \<open>
  Claim C4. For every input \<open>x\<close>, the empty string included, and every order in which the
  registry can be visited, GetPrompt(x) contains each registered type identifier (feat,
  fix, docs, style, refactor, test, chore) as a substring and ends with \<open>x\<close>, byte for
  byte.
\<close>

theorem GetPrompt_contains_types_and_input:
  assumes "range_order CommitRules ks"
  shows "(\<forall>t\<in>{''feat'', ''fix'', ''docs'', ''style'', ''refactor'', ''test'', ''chore''}.
            sublist t (GetPrompt ks x))
       \<and> dom CommitRules = {''feat'', ''fix'', ''docs'', ''style'', ''refactor'', ''test'', ''chore''}
       \<and> suffix x (GetPrompt ks x)"
proof -
  have "sublist t (GetPrompt ks x)" if "t \<in> dom CommitRules" for t
  proof -
    from that assms have "t \<in> set ks"
      by (simp add: range_order_def)
    then have "sublist t (Join ks '', '')"
      by (rule sublist_Join)
    then show ?thesis
      unfolding GetPrompt_unfold by (rule sublist_in_context)
  qed
  moreover have "suffix x (GetPrompt ks x)"
    unfolding GetPrompt_unfold suffix_def by (metis append.assoc)
  ultimately show ?thesis
    by (simp add: dom_CommitRules)
qed

theorem GetPrompt_contains_types_and_input_witness:
  "sublist ''refactor'' (GetPrompt literal_order []) \<and> suffix [] (GetPrompt literal_order [])
   \<and> sublist ''feat'' (GetPrompt rotated_order ''M main.go'')
   \<and> suffix ''M main.go'' (GetPrompt rotated_order ''M main.go'')"
  using GetPrompt_contains_types_and_input [OF range_order_literal, of "[]"]
    GetPrompt_contains_types_and_input [OF range_order_rotated, of "''M main.go''"]
  by simp




section \<open>CleanCommitMessage: the claims\<close>

text \<open>
  Claim C1 says that CleanCommitMessage returns "fix: resolve bug" for the input
  \<^verbatim>\<open>The commit message should be: "fix: resolve bug"\<close>. The function returns the whole
  first line instead, with the opening quote still in it: the line has a colon with text
  on both sides and fewer than 72 bytes, so the first check returns it before the
  patterns are tried. Applied to that line, the patterns would extract the message.
\<close>

theorem CleanCommitMessage_should_be_example:
  "CleanCommitMessage should_be_input = Inr should_be_line
   \<and> should_be_line \<noteq> ''fix: resolve bug''
   \<and> looks_proper should_be_line
   \<and> try_patterns patterns should_be_line = Some ''fix: resolve bug''"
  by (simp add: Clean_should_be_input looks_proper_should_be_line try_patterns_should_be_line)
    (simp add: should_be_line_def)

text \<open>
  Claim C7. When the first line of the trimmed input contains a colon, the trimmed text
  before and after its first colon is non-empty, and the line has fewer than 72 bytes,
  CleanCommitMessage returns that line; in particular it returns "feat: add x" for
  "feat: add x" followed by a line of body text.
\<close>

theorem CleanCommitMessage_proper_first_line:
  assumes "CHR '':'' \<in> set (first_line message)"
    and "TrimSpace (takeWhile (\<lambda>c. c \<noteq> CHR '':'') (first_line message)) \<noteq> []"
    and "TrimSpace (tl (dropWhile (\<lambda>c. c \<noteq> CHR '':'') (first_line message))) \<noteq> []"
    and "length (first_line message) < 72"
  shows "CleanCommitMessage message = Inr (first_line message)
       \<and> CleanCommitMessage ''feat: add x\<newline>extra body text'' = Inr ''feat: add x''"
proof -
  from assms have "looks_proper (first_line message)"
    by (simp add: looks_proper_iff)
  then have "CleanCommitMessage message = Inr (first_line message)"
    by (simp add: Clean_unfold)
  with Clean_feat_add_x_body show ?thesis
    by (rule conjI [rotated])
qed

theorem CleanCommitMessage_proper_first_line_witness:
  "CleanCommitMessage ''feat: add x\<newline>extra body text'' =
     Inr (first_line ''feat: add x\<newline>extra body text'')
   \<and> first_line ''feat: add x\<newline>extra body text'' = ''feat: add x''"
proof -
  have p: "looks_proper (first_line ''feat: add x\<newline>extra body text'')"
    by (simp add: first_line_feat_add_x_body looks_proper_feat_add_x)
  then show ?thesis
    using CleanCommitMessage_proper_first_line [of "''feat: add x\<newline>extra body text''"]
    by (simp add: looks_proper_iff first_line_feat_add_x_body)
qed

text \<open>
  Claim C9. CleanCommitMessage returns a string for every input and never panics. For an
  input that is empty or consists of white space only it returns the empty string. When
  no pattern yields a message it returns the trimmed first line unchanged, which is the
  case whenever that line contains no colon.
\<close>

theorem CleanCommitMessage_never_fails:
  "(\<exists>r. CleanCommitMessage message = Inr r)
   \<and> (TrimSpace message = [] \<longrightarrow> CleanCommitMessage message = Inr [])
   \<and> (set message \<subseteq> ascii_space \<longrightarrow> CleanCommitMessage message = Inr [])
   \<and> (try_patterns patterns (first_line message) = None \<longrightarrow>
        CleanCommitMessage message = Inr (first_line message))
   \<and> (CHR '':'' \<notin> set (first_line message) \<longrightarrow>
        CleanCommitMessage message = Inr (first_line message))
   \<and> CleanCommitMessage [] = Inr []
   \<and> CleanCommitMessage ''   '' = Inr []"
proof -
  have total: "\<exists>r. CleanCommitMessage message = Inr r"
    by (simp add: Clean_unfold)
  have fallback: "CleanCommitMessage message = Inr (first_line message)"
    if "try_patterns patterns (first_line message) = None"
    using that by (simp add: Clean_unfold)
  have no_colon: "CleanCommitMessage message = Inr (first_line message)"
    if "CHR '':'' \<notin> set (first_line message)"
    using that by (simp add: fallback try_patterns_no_colon)
  have blank: "CleanCommitMessage message = Inr []" if "TrimSpace message = []"
  proof -
    from that have "Trim message quotes = message"
      by (rule Trim_white_space)
    with that have "first_line message = []"
      by (simp add: first_line_def)
    with no_colon show ?thesis by simp
  qed
  have ascii: "CleanCommitMessage message = Inr []" if "set message \<subseteq> ascii_space"
    using that by (simp add: blank TrimSpace_blank)
  from total blank ascii fallback no_colon show ?thesis
    by (simp add: Clean_empty Clean_spaces)
qed

theorem CleanCommitMessage_never_fails_witness:
  "CleanCommitMessage ''   '' = Inr []
   \<and> CleanCommitMessage ''add new feature'' = Inr ''add new feature''"
  using CleanCommitMessage_never_fails [of "''   ''"]
    CleanCommitMessage_never_fails [of "''add new feature''"]
  by (simp add: TrimSpace_spaces first_line_add_new_feature)

text \<open>
  Claim C3 as stated: cleaning a cleaned message changes nothing, for every input. It
  fails for a quoted message followed by a line of explanation: the first cleaning
  removes the opening quote only, and the second removes the closing quote that the first
  one left at the end of the line.
\<close>

theorem CleanCommitMessage_not_idempotent:
  "CleanCommitMessage quoted_with_body = Inr half_quoted
   \<and> CleanCommitMessage half_quoted \<noteq> Inr half_quoted"
  by (simp add: Clean_quoted_with_body Clean_half_quoted) (simp add: half_quoted_def)

text \<open>
  Claim C3, amended. Cleaning the cleaned message \<open>r\<close> of an input \<open>s\<close> changes nothing
  whenever \<open>r\<close> has no quote character at either end and either is the trimmed first
  line of \<open>s\<close> (no pattern extracted another text) or passes the check of the first line
  and has no white space at either end.
\<close>

theorem CleanCommitMessage_idempotent_on_settled_results:
  assumes "CleanCommitMessage s = Inr r"
    and "Trim r quotes = r"
    and "r = first_line s \<or> (TrimSpace r = r \<and> looks_proper r)"
  shows "CleanCommitMessage r = Inr r"
proof -
  have nl: "CHR 0x0A \<notin> set r"
    using assms(1) by (rule Clean_no_newline)
  from assms(3) show ?thesis
  proof
    assume r: "r = first_line s"
    then have "TrimSpace r = r"
      by (simp add: first_line_def TrimSpace_idem)
    with assms(2) nl have "first_line r = r"
      by (simp add: first_line_fixed)
    with r have "first_line r = first_line s"
      by simp
    then have "CleanCommitMessage r = CleanCommitMessage s"
      by (simp add: Clean_unfold cong: option.case_cong)
    with assms(1) show ?thesis by simp
  next
    assume "TrimSpace r = r \<and> looks_proper r"
    with assms(2) nl have "first_line r = r" "looks_proper r"
      by (simp_all add: first_line_fixed)
    then show ?thesis
      by (simp add: Clean_unfold)
  qed
qed

theorem CleanCommitMessage_idempotent_on_settled_results_witness:
  "CleanCommitMessage ''feat: add x'' = Inr ''feat: add x''
   \<and> CleanCommitMessage ''feat: add new feature'' = Inr ''feat: add new feature''"
proof -
  have a: "''feat: add x'' = first_line ''feat: add x\<newline>extra body text''
      \<or> (TrimSpace ''feat: add x'' = ''feat: add x'' \<and> looks_proper ''feat: add x'')"
    by (simp add: first_line_feat_add_x_body)
  have b: "''feat: add new feature'' = first_line wrapped_long
      \<or> (TrimSpace ''feat: add new feature'' = ''feat: add new feature''
          \<and> looks_proper ''feat: add new feature'')"
    by (simp add: TrimSpace_feat_add_new_feature looks_proper_feat_add_new_feature)
  show ?thesis
    using CleanCommitMessage_idempotent_on_settled_results
        [OF Clean_feat_add_x_body Trim_feat_add_x a]
      CleanCommitMessage_idempotent_on_settled_results
        [OF Clean_wrapped_long Trim_feat_add_new_feature b]
    by simp
qed

section \<open>ValidateCommitMessage: the claims\<close>

text \<open>
  Claim C5. ValidateCommitMessage fails with the error "commit message must follow format:
  type(scope): description" if and only if the white-space-trimmed message contains no
  colon; in particular it fails so on "add new feature".
\<close>

theorem ValidateCommitMessage_malformed_iff_no_colon:
  "((err (ValidateCommitMessage ks message) =
       Some ''commit message must follow format: type(scope): description'')
     = (CHR '':'' \<notin> set (TrimSpace message)))
   \<and> ValidateCommitMessage ks ''add new feature'' =
       \<lparr>err = Some ''commit message must follow format: type(scope): description'',
        stdout = []\<rparr>"
  by (simp add: Validate_unfold TrimSpace_add_new_feature)

theorem ValidateCommitMessage_malformed_iff_no_colon_witness:
  "err (ValidateCommitMessage literal_order ''feat: add x'') \<noteq>
     Some ''commit message must follow format: type(scope): description''
   \<and> err (ValidateCommitMessage literal_order ''bogus: add x'') \<noteq>
     Some ''commit message must follow format: type(scope): description''
   \<and> err (ValidateCommitMessage literal_order ''add new feature'') =
     Some ''commit message must follow format: type(scope): description''"
  using ValidateCommitMessage_malformed_iff_no_colon [of literal_order "''feat: add x''"]
    ValidateCommitMessage_malformed_iff_no_colon [of literal_order "''bogus: add x''"]
    ValidateCommitMessage_malformed_iff_no_colon [of literal_order "''add new feature''"]
  by (simp add: TrimSpace_feat_add_x TrimSpace_bogus TrimSpace_add_new_feature)

text \<open>
  Claim C10. The branch of ValidateCommitMessage that returns "commit message must have a
  type" is never taken: its guard \<^verbatim>\<open>len(scopeParts) == 0\<close> is false for every input,
  since SplitN with a positive count yields at least one element. Every result is the
  format error, the invalid-type error, the too-long error, or success.
\<close>

theorem ValidateCommitMessage_no_type_branch_unreachable:
  "SplitN s sep (Suc n) \<noteq> []
   \<and> length (SplitN (TrimSpace (SplitN (TrimSpace message) (CHR '':'') 2 ! 0)) (CHR ''('') 2) \<noteq> 0
   \<and> err (ValidateCommitMessage ks message) \<noteq> Some ''commit message must have a type''
   \<and> (err (ValidateCommitMessage ks message) =
          Some ''commit message must follow format: type(scope): description''
      \<or> err (ValidateCommitMessage ks message) =
          Some (''invalid commit type: '' @ type_token message @ ''. Valid types: '' @
                Join (GetCommitTypes ks) '', '')
      \<or> err (ValidateCommitMessage ks message) =
          Some (''commit message is too long: '' @ Itoa (length (TrimSpace message)) @
                '' characters (maximum: 72)'')
      \<or> err (ValidateCommitMessage ks message) = None)"
  using SplitN_nonempty [of _ _ 1] SplitN_nonempty [of s sep n]
  by (simp add: Validate_unfold numeral_2_eq_2 GetCommitTypes_eq)

theorem ValidateCommitMessage_no_type_branch_unreachable_witness:
  "length (SplitN (TrimSpace (SplitN (TrimSpace ''(: x'') (CHR '':'') 2 ! 0)) (CHR ''('') 2) \<noteq> 0
   \<and> err (ValidateCommitMessage literal_order ''(: x'') \<noteq> Some ''commit message must have a type''"
  using ValidateCommitMessage_no_type_branch_unreachable [of "[]" "CHR ''(''" 1 "''(: x''" literal_order]
  by simp

text \<open>
  Claim C2. For a message whose trimmed form contains a colon and whose type token is a
  registered type: a trimmed length above 72 gives the too-long error, which reports
  the length (in decimal) and the ceiling 72; a trimmed length from 51 to 72 gives success with a
  warning printed; a trimmed length of at most 50 gives success with nothing printed.
  The two successes differ in what is printed.
\<close>

theorem ValidateCommitMessage_length_outcomes:
  assumes "CHR '':'' \<in> set (TrimSpace message)"
    and "CommitRules (type_token message) \<noteq> None"
  shows "(72 < length (TrimSpace message) \<longrightarrow>
            ValidateCommitMessage ks message =
              \<lparr>err = Some (''commit message is too long: '' @ Itoa (length (TrimSpace message)) @
                           '' characters (maximum: 72)''),
               stdout = []\<rparr>)
       \<and> (50 < length (TrimSpace message) \<and> length (TrimSpace message) \<le> 72 \<longrightarrow>
            ValidateCommitMessage ks message =
              \<lparr>err = None,
               stdout = ''Warning: Commit message is '' @ Itoa (length (TrimSpace message)) @
                        '' characters (recommended: <50)\<newline>''\<rparr>
            \<and> stdout (ValidateCommitMessage ks message) \<noteq> [])
       \<and> (length (TrimSpace message) \<le> 50 \<longrightarrow>
            ValidateCommitMessage ks message = \<lparr>err = None, stdout = []\<rparr>)
       \<and> decimal_value (Itoa (length (TrimSpace message))) = length (TrimSpace message)"
  using assms by (auto simp: Validate_unfold decimal_value_Itoa)

theorem ValidateCommitMessage_length_outcomes_witness:
  "ValidateCommitMessage literal_order too_long_message =
     \<lparr>err = Some ''commit message is too long: 77 characters (maximum: 72)'', stdout = []\<rparr>
   \<and> ValidateCommitMessage literal_order warned_message =
     \<lparr>err = None,
      stdout = ''Warning: Commit message is 67 characters (recommended: <50)\<newline>''\<rparr>
   \<and> ValidateCommitMessage literal_order ''feat: add x'' = \<lparr>err = None, stdout = []\<rparr>"
proof -
  have long: "CHR '':'' \<in> set (TrimSpace too_long_message)"
    "CommitRules (type_token too_long_message) \<noteq> None"
    by (simp_all add: TrimSpace_too_long_message colon_too_long_message
        type_token_too_long_message CommitRules_chore)
  have warn: "CHR '':'' \<in> set (TrimSpace warned_message)"
    "CommitRules (type_token warned_message) \<noteq> None"
    by (simp_all add: TrimSpace_warned_message colon_warned_message
        type_token_warned_message CommitRules_chore)
  have short: "CHR '':'' \<in> set (TrimSpace ''feat: add x'')"
    "CommitRules (type_token ''feat: add x'') \<noteq> None"
    by (simp_all add: TrimSpace_feat_add_x type_token_feat_add_x CommitRules_feat)
  show ?thesis
    using ValidateCommitMessage_length_outcomes [OF long, of literal_order]
      ValidateCommitMessage_length_outcomes [OF warn, of literal_order]
      ValidateCommitMessage_length_outcomes [OF short, of literal_order]
    by (simp add: TrimSpace_too_long_message TrimSpace_warned_message TrimSpace_feat_add_x
        length_too_long_message length_warned_message Itoa_77 Itoa_67)
qed

text \<open>
  Claim C6 as stated: for every message that contains a colon and whose type token, the
  text before the first \<^verbatim>\<open>(\<close> of the part before the colon, is not a registered type,
  ValidateCommitMessage fails with the invalid-type error. It fails for "feat : add x":
  the text before the colon is "feat" with a blank after it, which is no registered
  type, but the code trims that part before it looks the type up, finds "feat" and
  returns no error.
\<close>

theorem ValidateCommitMessage_accepts_blank_before_colon:
  "CHR '':'' \<in> set spaced_type_message
   \<and> CommitRules (pre_colon_token spaced_type_message) = None
   \<and> range_order CommitRules literal_order
   \<and> ValidateCommitMessage literal_order spaced_type_message = \<lparr>err = None, stdout = []\<rparr>"
proof -
  have "CHR '':'' \<in> set spaced_type_message"
    by (simp add: spaced_type_message_def)
  moreover have "CommitRules (pre_colon_token spaced_type_message) = None"
    by (simp add: pre_colon_token_spaced_type_message CommitRules_feat_blank)
  ultimately show ?thesis
    using range_order_literal Validate_spaced_type_message by blast
qed

text \<open>
  Claim C6, amended. For a message that contains a colon and whose type token, taken from
  the white-space-trimmed part before the colon, is not a registered type,
  ValidateCommitMessage fails with the invalid-type error, and the error text contains
  the name of every registered type, whatever the order in which the registry is
  visited; in particular for "bogus: add x".
\<close>

theorem ValidateCommitMessage_invalid_type:
  assumes "CHR '':'' \<in> set message"
    and "CommitRules (type_token message) = None"
    and "range_order CommitRules ks"
  shows "ValidateCommitMessage ks message =
           \<lparr>err = Some (''invalid commit type: '' @ type_token message @ ''. Valid types: '' @
                        Join ks '', ''),
            stdout = []\<rparr>
       \<and> (\<forall>t\<in>dom CommitRules.
            sublist t (''invalid commit type: '' @ type_token message @ ''. Valid types: '' @
                        Join ks '', ''))
       \<and> ValidateCommitMessage ks ''bogus: add x'' =
           \<lparr>err = Some (''invalid commit type: bogus. Valid types: '' @ Join ks '', ''),
            stdout = []\<rparr>"
proof -
  from assms(1) have "CHR '':'' \<in> set (TrimSpace message)"
    by (simp add: colon_TrimSpace_iff)
  with assms(2) have "ValidateCommitMessage ks message =
           \<lparr>err = Some (''invalid commit type: '' @ type_token message @ ''. Valid types: '' @
                        Join ks '', ''),
            stdout = []\<rparr>"
    by (simp add: Validate_unfold)
  moreover have "sublist t (''invalid commit type: '' @ type_token message @ ''. Valid types: '' @
                        Join ks '', '')" if "t \<in> dom CommitRules" for t
  proof -
    from that assms(3) have "t \<in> set ks"
      by (simp add: range_order_def)
    then have "sublist t (Join ks '', '')"
      by (rule sublist_Join)
    then obtain ps ss where "Join ks '', '' = ps @ t @ ss"
      by (auto simp: sublist_def)
    then have "''invalid commit type: '' @ type_token message @ ''. Valid types: '' @ Join ks '', ''
        = (''invalid commit type: '' @ type_token message @ ''. Valid types: '' @ ps) @ t @ ss"
      by simp
    then show ?thesis
      unfolding sublist_def by blast
  qed
  moreover have "ValidateCommitMessage ks ''bogus: add x'' =
           \<lparr>err = Some (''invalid commit type: bogus. Valid types: '' @ Join ks '', ''),
            stdout = []\<rparr>"
    by (simp add: Validate_unfold TrimSpace_bogus type_token_bogus CommitRules_bogus)
  ultimately show ?thesis by blast
qed

theorem ValidateCommitMessage_invalid_type_witness:
  "ValidateCommitMessage literal_order ''bogus: add x'' =
     \<lparr>err = Some ''invalid commit type: bogus. Valid types: feat, fix, docs, style, refactor, test, chore'',
      stdout = []\<rparr>
   \<and> sublist ''refactor''
       ''invalid commit type: bogus. Valid types: feat, fix, docs, style, refactor, test, chore''"
proof -
  have colon: "CHR '':'' \<in> set ''bogus: add x''"
    by simp
  have unknown: "CommitRules (type_token ''bogus: add x'') = None"
    by (simp add: type_token_bogus CommitRules_bogus)
  have "''refactor'' \<in> dom CommitRules"
    by (simp add: dom_CommitRules)
  then show ?thesis
    using ValidateCommitMessage_invalid_type [OF colon unknown range_order_literal]
    by (auto simp: type_token_bogus literal_order_def)
qed

end
